theory Spec2Isabelle
  imports Complex_Main "HOL-Library.Word"
begin

section \<open>The RFC2217 proxy (pi/serial\_proxy.py)\<close>

subsection \<open>Bytes and protocol constants\<close>

text \<open>
  A Python \<open>bytes\<close> object is a list of 8-bit words. Where the source computes with
  a byte as an unbounded Python integer (\<open>subcmd + 100\<close>, \<open>int.from_bytes\<close>) the
  model converts with \<open>uint\<close> and computes in \<open>int\<close>.
\<close>

type_synonym byte = "8 word"

abbreviation (input) IAC :: byte where "IAC \<equiv> 255"
abbreviation (input) DONT :: byte where "DONT \<equiv> 254"
abbreviation (input) DO :: byte where "DO \<equiv> 253"
abbreviation (input) WONT :: byte where "WONT \<equiv> 252"
abbreviation (input) WILL :: byte where "WILL \<equiv> 251"
abbreviation (input) SB :: byte where "SB \<equiv> 250"
abbreviation (input) SE :: byte where "SE \<equiv> 240"
abbreviation (input) COM_PORT_OPTION :: byte where "COM_PORT_OPTION \<equiv> 44"

abbreviation (input) SET_BAUDRATE :: byte where "SET_BAUDRATE \<equiv> 1"
abbreviation (input) SET_DATASIZE :: byte where "SET_DATASIZE \<equiv> 2"
abbreviation (input) SET_PARITY :: byte where "SET_PARITY \<equiv> 3"
abbreviation (input) SET_STOPSIZE :: byte where "SET_STOPSIZE \<equiv> 4"
abbreviation (input) SET_CONTROL :: byte where "SET_CONTROL \<equiv> 5"
abbreviation (input) SET_LINESTATE_MASK :: byte where "SET_LINESTATE_MASK \<equiv> 10"
abbreviation (input) SET_MODEMSTATE_MASK :: byte where "SET_MODEMSTATE_MASK \<equiv> 11"

subsection \<open>Python primitives used by the codec\<close>

datatype py_exception = OverflowError | ValueError

text \<open>\<open>bytes([x, ...])\<close>: raises \<open>ValueError\<close> unless every element is in \<open>range(256)\<close>.\<close>

definition bytes_of_ints :: "int list \<Rightarrow> byte list option" where
  "bytes_of_ints xs =
     (if list_all (\<lambda>x. 0 \<le> x \<and> x < 256) xs then Some (map word_of_int xs) else None)"

text \<open>\<open>int.from_bytes(bs, 'big')\<close>.\<close>

definition int_from_bytes_big :: "byte list \<Rightarrow> int" where
  "int_from_bytes_big bs = foldl (\<lambda>acc b. acc * 256 + uint b) 0 bs"

text \<open>\<open>n.to_bytes(4, 'big')\<close>: raises \<open>OverflowError\<close> when \<open>n\<close> is negative or does
  not fit in four bytes.\<close>

definition int_to_bytes4_big :: "int \<Rightarrow> byte list option" where
  "int_to_bytes4_big n =
     (if 0 \<le> n \<and> n < 2 ^ 32
      then Some [word_of_int (n div 2 ^ 24), word_of_int (n div 2 ^ 16),
                 word_of_int (n div 2 ^ 8), word_of_int n]
      else None)"

text \<open>\<open>int(x)\<close> on a number: truncation towards zero.\<close>

definition py_int :: "rat \<Rightarrow> int" where
  "py_int x = (if 0 \<le> x then \<lfloor>x\<rfloor> else \<lceil>x\<rceil>)"

text \<open>\<open>data[lo:hi]\<close> for non-negative bounds: the slice is clamped to the data.\<close>

definition py_slice :: "'a list \<Rightarrow> nat \<Rightarrow> nat \<Rightarrow> 'a list" where
  "py_slice xs lo hi = take (hi - lo) (drop lo xs)"

text \<open>\<open>data.find(sub, start)\<close>: the lowest index \<open>j \<ge> start\<close> with
  \<open>data[j:j+len(sub)] == sub\<close>; Python's \<open>-1\<close> is \<open>None\<close>. The helper walks the
  suffix that starts at index \<open>j\<close>.\<close>

fun find_in :: "'a list \<Rightarrow> 'a list \<Rightarrow> nat \<Rightarrow> nat option" where
  "find_in sub [] j = (if sub = [] then Some j else None)"
| "find_in sub (x # xs) j =
     (if take (length sub) (x # xs) = sub then Some j else find_in sub xs (Suc j))"

definition bytes_find :: "'a list \<Rightarrow> 'a list \<Rightarrow> nat \<Rightarrow> nat option" where
  "bytes_find data sub start =
     (if start \<le> length data then find_in sub (drop start data) start else None)"

subsection \<open>The proxy's state\<close>

text \<open>
  The fields of \<open>RFC2217Proxy\<close> the codec reads and writes. The \<open>serial.Serial\<close>
  object is its six settings; assigning a setting stores it (the values the codec assigns
  are all accepted by pyserial). The client socket is \<open>None\<close> or the list of the
  messages sent on it so far, oldest first; a \<open>send\<close> appends one message. The logger
  is the list of the events logged so far.
\<close>

datatype log_event =
    Baudrate_changed int
  | Data_size_changed int
  | Parity_changed char
  | Stop_bits_changed rat
  | DTR_ON | DTR_OFF | RTS_ON | RTS_OFF
  | Error_handling_option py_exception

record proxy =
  serial_baudrate :: int
  serial_bytesize :: int
  serial_parity :: char
  serial_stopbits :: rat
  serial_dtr :: bool
  serial_rts :: bool
  client_socket :: "byte list list option"
  logger :: "log_event list"

definition log :: "log_event \<Rightarrow> proxy \<Rightarrow> proxy" where
  "log e st = st\<lparr>logger := logger st @ [e]\<rparr>"

subsection \<open>Sending to the client\<close>

text \<open>\<open>_send_telnet\<close>: sends \<open>IAC cmd opt\<close> when a client is connected.\<close>

definition send_telnet :: "byte \<Rightarrow> byte \<Rightarrow> proxy \<Rightarrow> proxy" where
  "send_telnet cmd opt st =
     (case client_socket st of
        None \<Rightarrow> st
      | Some sent \<Rightarrow> st\<lparr>client_socket := Some (sent @ [[IAC, cmd, opt]])\<rparr>)"

text \<open>\<open>_send_com_port_option\<close>: the header is built with \<open>bytes([IAC, SB,
  COM_PORT_OPTION, subcmd])\<close>, which raises when \<open>subcmd\<close> exceeds 255; the bare
  \<open>except: pass\<close> then drops the message.\<close>

definition send_com_port_option :: "int \<Rightarrow> byte list \<Rightarrow> proxy \<Rightarrow> proxy" where
  "send_com_port_option subcmd data st =
     (case client_socket st of
        None \<Rightarrow> st
      | Some sent \<Rightarrow>
          (case bytes_of_ints [255, 250, 44, subcmd] of
             None \<Rightarrow> st
           | Some hdr \<Rightarrow> st\<lparr>client_socket := Some (sent @ [hdr @ data @ [IAC, SE]])\<rparr>))"

subsection \<open>COM-PORT-OPTION subnegotiations\<close>

definition parity_map :: "byte \<Rightarrow> char" where
  "parity_map b =
     (if b = 1 then CHR ''N'' else if b = 2 then CHR ''O'' else if b = 3 then CHR ''E''
      else if b = 4 then CHR ''M'' else if b = 5 then CHR ''S'' else CHR ''N'')"

definition parity_rmap :: "char \<Rightarrow> int" where
  "parity_rmap c =
     (if c = CHR ''N'' then 1 else if c = CHR ''O'' then 2 else if c = CHR ''E'' then 3
      else if c = CHR ''M'' then 4 else if c = CHR ''S'' then 5 else 1)"

text \<open>\<open>stopbits_map.get(b, 1)\<close> with \<open>{1: 1, 2: 2, 3: 1.5}\<close>.\<close>

definition stopbits_map :: "byte \<Rightarrow> rat" where
  "stopbits_map b = (if b = 1 then 1 else if b = 2 then 2 else if b = 3 then 3 / 2 else 1)"

text \<open>\<open>stopbits_rmap.get(k, 1)\<close> with \<open>{1: 1, 1.5: 3, 2: 2}\<close>; the source looks up
  \<open>int(self.serial.stopbits)\<close>.\<close>

definition stopbits_rmap :: "rat \<Rightarrow> int" where
  "stopbits_rmap k = (if k = 1 then 1 else if k = 3 / 2 then 3 else if k = 2 then 2 else 1)"

text \<open>The reply of a branch: the payload is built (which may raise), then sent. An
  exception reaches the handler's \<open>except Exception\<close>, which logs it.\<close>

definition reply :: "int \<Rightarrow> (byte list) option \<Rightarrow> py_exception \<Rightarrow> proxy \<Rightarrow> proxy" where
  "reply resp_cmd payload exn st =
     (case payload of
        None \<Rightarrow> log (Error_handling_option exn) st
      | Some bs \<Rightarrow> send_com_port_option resp_cmd bs st)"

definition handle_com_port_option :: "byte \<Rightarrow> byte list \<Rightarrow> proxy \<Rightarrow> proxy" where
  "handle_com_port_option subcmd data st =
     (let resp_cmd = uint subcmd + 100 in
      if subcmd = SET_BAUDRATE \<and> length data \<ge> 4 then
        (let baudrate = int_from_bytes_big (take 4 data);
             st1 = (if baudrate > 0
                    then log (Baudrate_changed baudrate) (st\<lparr>serial_baudrate := baudrate\<rparr>)
                    else st)
         in reply resp_cmd (int_to_bytes4_big (serial_baudrate st1)) OverflowError st1)
      else if subcmd = SET_DATASIZE \<and> length data \<ge> 1 then
        (let datasize = uint (data ! 0);
             st1 = (if datasize \<ge> 5 \<and> datasize \<le> 8
                    then log (Data_size_changed datasize) (st\<lparr>serial_bytesize := datasize\<rparr>)
                    else st)
         in reply resp_cmd (bytes_of_ints [serial_bytesize st1]) ValueError st1)
      else if subcmd = SET_PARITY \<and> length data \<ge> 1 then
        (let parity = parity_map (data ! 0);
             st1 = log (Parity_changed parity) (st\<lparr>serial_parity := parity\<rparr>)
         in reply resp_cmd (bytes_of_ints [parity_rmap (serial_parity st1)]) ValueError st1)
      else if subcmd = SET_STOPSIZE \<and> length data \<ge> 1 then
        (let stopbits = stopbits_map (data ! 0);
             st1 = log (Stop_bits_changed stopbits) (st\<lparr>serial_stopbits := stopbits\<rparr>)
         in reply resp_cmd (bytes_of_ints [stopbits_rmap (of_int (py_int (serial_stopbits st1)))])
              ValueError st1)
      else if subcmd = SET_CONTROL \<and> length data \<ge> 1 then
        (let control = data ! 0 in
         if control = 8 then
           send_com_port_option resp_cmd [8] (log DTR_ON (st\<lparr>serial_dtr := True\<rparr>))
         else if control = 9 then
           send_com_port_option resp_cmd [9] (log DTR_OFF (st\<lparr>serial_dtr := False\<rparr>))
         else if control = 11 then
           send_com_port_option resp_cmd [11] (log RTS_ON (st\<lparr>serial_rts := True\<rparr>))
         else if control = 12 then
           send_com_port_option resp_cmd [12] (log RTS_OFF (st\<lparr>serial_rts := False\<rparr>))
         else send_com_port_option resp_cmd [control] st)
      else if subcmd = SET_LINESTATE_MASK then
        send_com_port_option resp_cmd (if data \<noteq> [] then data else [0]) st
      else if subcmd = SET_MODEMSTATE_MASK then
        send_com_port_option resp_cmd (if data \<noteq> [] then data else [0]) st
      else
        send_com_port_option resp_cmd (if data \<noteq> [] then data else [0]) st)"

subsection \<open>The parser loop of \<open>handle_rfc2217\<close>\<close>

lemma find_in_ge: "find_in sub xs j = Some k \<Longrightarrow> j \<le> k"
  by (induction xs arbitrary: j) (auto split: if_splits dest: Suc_leD)

lemma bytes_find_ge: "bytes_find data sub start = Some k \<Longrightarrow> start \<le> k"
  by (auto simp: bytes_find_def split: if_splits dest: find_in_ge)

text \<open>
  The \<open>while i < len(data)\<close> loop, with the loop variables \<open>i\<close> and \<open>output\<close> and
  the proxy's state as arguments. Each \<open>continue\<close> and the fall-through \<open>i += 2\<close>
  is a recursive call.
\<close>

function handle_loop :: "byte list \<Rightarrow> nat \<Rightarrow> proxy \<Rightarrow> byte list \<Rightarrow> proxy \<times> byte list" where
  "handle_loop data i st output =
     (if i < length data then
        (if data ! i = IAC \<and> i + 1 < length data then
           (let cmd = data ! (i + 1) in
            if cmd = IAC then handle_loop data (i + 2) st (output @ [IAC])
            else if cmd = SB \<and> i + 2 < length data then
              (if data ! (i + 2) = COM_PORT_OPTION then
                 (case bytes_find data [IAC, SE] (i + 3) of
                    Some se_idx \<Rightarrow>
                      (let subcmd = (if i + 3 < se_idx then data ! (i + 3) else 0);
                           subdata = py_slice data (i + 4) se_idx
                       in handle_loop data (se_idx + 2)
                            (handle_com_port_option subcmd subdata st) output)
                  | None \<Rightarrow> handle_loop data (i + 2) st output)
               else handle_loop data (i + 2) st output)
            else if (cmd = DO \<or> cmd = DONT \<or> cmd = WILL \<or> cmd = WONT) \<and> i + 2 < length data then
              (let opt = data ! (i + 2);
                   st1 = (if cmd = DO \<and> opt = COM_PORT_OPTION then send_telnet WILL COM_PORT_OPTION st
                          else if cmd = WILL \<and> opt = COM_PORT_OPTION
                          then send_telnet DO COM_PORT_OPTION st
                          else st)
               in handle_loop data (i + 3) st1 output)
            else handle_loop data (i + 2) st output)
         else handle_loop data (i + 1) st (output @ [data ! i]))
      else (st, output))"
  by pat_completeness auto
termination
  by (relation "measure (\<lambda>(data, i, st, output). length data - i)")
     (auto dest!: bytes_find_ge)

declare handle_loop.simps [simp del]

text \<open>\<open>handle_rfc2217(data)\<close>: the state after the call and the returned application
  data.\<close>

definition handle_rfc2217 :: "byte list \<Rightarrow> proxy \<Rightarrow> proxy \<times> byte list" where
  "handle_rfc2217 data st = handle_loop data 0 st []"

section \<open>The slot supervisor (pi/portal\_v2.py)\<close>

subsection \<open>Slots and the operating system\<close>

text \<open>
  \<open>SlotState\<close>, without its lock: the model runs the supervisor's operations one
  after the other, which is the order the per-slot lock enforces on a slot.
\<close>

record SlotState =
  label :: string
  slot_key :: string
  tcp_port :: int
  running :: bool
  pid :: "int option"
  devnode :: "string option"
  last_gen :: int
  last_error :: "string option"

text \<open>\<open>SlotState.__init__\<close>.\<close>

definition new_slot :: "string \<Rightarrow> string \<Rightarrow> int \<Rightarrow> SlotState" where
  "new_slot lbl key port =
     \<lparr>label = lbl, slot_key = key, tcp_port = port, running = False, pid = None,
      devnode = None, last_gen = 0, last_error = None\<rparr>"

text \<open>
  What one call observes of the operating system: whether \<open>os.kill(pid, 0)\<close>
  succeeds, whether a connect to the port succeeds, and what \<open>_start_proxy\<close> returns
  for a port and a device node: \<open>Inl msg\<close> for \<open>(False, msg)\<close> and \<open>Inr p\<close> for
  \<open>(True, str(p))\<close>. \<open>_stop_process\<close> changes no field of a slot and its result is
  ignored by its callers.
\<close>

record os_env =
  is_process_alive :: "int \<Rightarrow> bool"
  is_port_listening :: "int \<Rightarrow> bool"
  start_proxy :: "int \<Rightarrow> string \<Rightarrow> string + int"

text \<open>The truth value of \<open>slot.pid\<close>: \<open>None\<close> and \<open>0\<close> are false.\<close>

definition pid_truthy :: "int option \<Rightarrow> bool" where
  "pid_truthy p = (case p of None \<Rightarrow> False | Some n \<Rightarrow> n \<noteq> 0)"

definition pid_alive :: "os_env \<Rightarrow> int option \<Rightarrow> bool" where
  "pid_alive env p = (case p of None \<Rightarrow> False | Some n \<Rightarrow> is_process_alive env n)"

text \<open>The dictionaries the API handlers return.\<close>

datatype response =
    Unknown_slot_key string
  | Already_running int
  | Started int int
  | Start_failed string
  | Stopped

fun success :: "response \<Rightarrow> bool" where
  "success (Unknown_slot_key k) = False"
| "success (Already_running port) = True"
| "success (Started port p) = True"
| "success (Start_failed err) = False"
| "success Stopped = True"

fun restarted :: "response \<Rightarrow> bool option" where
  "restarted (Already_running port) = Some False"
| "restarted (Started port p) = Some True"
| "restarted r = None"

subsection \<open>start, stop and get\_devices\<close>

text \<open>The body of \<open>start\<close> under \<open>with slot.lock\<close>.\<close>

definition start_slot :: "os_env \<Rightarrow> string \<Rightarrow> SlotState \<Rightarrow> response \<times> SlotState" where
  "start_slot env dev slot0 =
     (let slot = slot0\<lparr>last_gen := last_gen slot0 + 1\<rparr> in
      if running slot \<and> pid_truthy (pid slot) \<and> devnode slot = Some dev
         \<and> pid_alive env (pid slot) \<and> is_port_listening env (tcp_port slot)
      then (Already_running (tcp_port slot), slot)
      else
        (let slot1 = (if running slot \<and> pid_truthy (pid slot)
                      then slot\<lparr>running := False, pid := None\<rparr> else slot)
         in case start_proxy env (tcp_port slot1) dev of
              Inr p \<Rightarrow>
                (Started (tcp_port slot1) p,
                 slot1\<lparr>running := True, pid := Some p, devnode := Some dev, last_error := None\<rparr>)
            | Inl err \<Rightarrow>
                (Start_failed err,
                 slot1\<lparr>running := False, pid := None, devnode := None,
                       last_error := Some err\<rparr>)))"

text \<open>The body of \<open>stop\<close> under \<open>with slot.lock\<close>.\<close>

definition stop_slot :: "SlotState \<Rightarrow> response \<times> SlotState" where
  "stop_slot slot0 =
     (let slot = slot0\<lparr>last_gen := last_gen slot0 + 1\<rparr> in
      if \<not> running slot \<or> \<not> pid_truthy (pid slot) then (Stopped, slot)
      else (Stopped, slot\<lparr>running := False, pid := None, devnode := None, last_error := None\<rparr>))"

text \<open>
  \<open>Portal.slots\<close>: the dictionary from slot keys to slots, in insertion order (the order
  \<open>get_devices\<close> reports). A slot object is mutated in place; the model writes the new
  slot back under its key.
\<close>

type_synonym slots = "(string \<times> SlotState) list"

definition update_slot :: "string \<Rightarrow> SlotState \<Rightarrow> slots \<Rightarrow> slots" where
  "update_slot key slot sl = map (\<lambda>(k, s). if k = key then (k, slot) else (k, s)) sl"

definition start :: "os_env \<Rightarrow> string \<Rightarrow> string \<Rightarrow> slots \<Rightarrow> response \<times> slots" where
  "start env key dev sl =
     (case map_of sl key of
        None \<Rightarrow> (Unknown_slot_key key, sl)
      | Some slot \<Rightarrow>
          (case start_slot env dev slot of (r, slot') \<Rightarrow> (r, update_slot key slot' sl)))"

definition stop :: "string \<Rightarrow> slots \<Rightarrow> response \<times> slots" where
  "stop key sl =
     (case map_of sl key of
        None \<Rightarrow> (Unknown_slot_key key, sl)
      | Some slot \<Rightarrow>
          (case stop_slot slot of (r, slot') \<Rightarrow> (r, update_slot key slot' sl)))"

text \<open>The health refresh \<open>get_devices\<close> does on each slot before it reports it.\<close>

definition reap :: "os_env \<Rightarrow> SlotState \<Rightarrow> SlotState" where
  "reap env slot =
     (if running slot \<and> pid_truthy (pid slot) \<and> \<not> pid_alive env (pid slot)
      then slot\<lparr>running := False, pid := None, last_error := Some ''Process died''\<rparr>
      else slot)"

text \<open>One entry of the reported list; the URL is kept as its host and port.\<close>

record slot_info =
  info_label :: string
  info_slot_key :: string
  info_tcp_port :: int
  info_running :: bool
  info_devnode :: "string option"
  info_pid :: "int option"
  info_url :: "(string \<times> int) option"
  info_last_gen :: int
  info_last_error :: "string option"

definition snapshot :: "string \<Rightarrow> SlotState \<Rightarrow> slot_info" where
  "snapshot host_ip slot =
     \<lparr>info_label = label slot, info_slot_key = slot_key slot, info_tcp_port = tcp_port slot,
      info_running = running slot, info_devnode = devnode slot, info_pid = pid slot,
      info_url = (if running slot then Some (host_ip, tcp_port slot) else None),
      info_last_gen = last_gen slot, info_last_error = last_error slot\<rparr>"

definition get_devices :: "os_env \<Rightarrow> string \<Rightarrow> slots \<Rightarrow> slot_info list \<times> slots" where
  "get_devices env host_ip sl =
     (let sl' = map (\<lambda>(k, s). (k, reap env s)) sl
      in (map (\<lambda>(k, s). snapshot host_ip s) sl', sl'))"

subsection \<open>Hotplug dispatch\<close>

text \<open>
  The \<open>/api/hotplug\<close> branch of \<open>do_POST\<close>: \<open>action\<close>, \<open>devnode\<close> and \<open>id_path\<close>
  are the fields of the request (\<open>None\<close> when absent). A request that fails validation
  is answered with an error and reaches neither \<open>start\<close> nor \<open>stop\<close>.
\<close>

definition falsy :: "string option \<Rightarrow> bool" where
  "falsy v = (case v of None \<Rightarrow> True | Some s \<Rightarrow> s = [])"

definition hotplug ::
  "os_env \<Rightarrow> string option \<Rightarrow> string option \<Rightarrow> string option \<Rightarrow> slots
     \<Rightarrow> (string + response) \<times> slots" where
  "hotplug env action dev id_path sl =
     (if falsy action \<or> falsy id_path then (Inl ''Missing action or id_path'', sl)
      else if action = Some ''add'' then
        (if falsy dev then (Inl ''Missing devnode for add'', sl)
         else (case start env (the id_path) (the dev) sl of (r, sl') \<Rightarrow> (Inr r, sl')))
      else if action = Some ''remove'' then
        (case stop (the id_path) sl of (r, sl') \<Rightarrow> (Inr r, sl'))
      else (Inl (''Unknown action: '' @ the action), sl))"

text \<open>A run of the supervisor: the calls made on it, each with what it observes of the
  operating system.\<close>

datatype call =
    Start os_env string string
  | Stop string
  | Hotplug os_env "string option" "string option" "string option"
  | Get_devices os_env

fun run_call :: "call \<Rightarrow> slots \<Rightarrow> slots" where
  "run_call (Start env key dev) sl = snd (start env key dev sl)"
| "run_call (Stop key) sl = snd (stop key sl)"
| "run_call (Hotplug env action dev id_path) sl = snd (hotplug env action dev id_path sl)"
| "run_call (Get_devices env) sl = snd (get_devices env [] sl)"

fun run_calls :: "call list \<Rightarrow> slots \<Rightarrow> slots" where
  "run_calls [] sl = sl"
| "run_calls (c # cs) sl = run_calls cs (run_call c sl)"

text \<open>Whether a call invokes \<open>start\<close> or \<open>stop\<close> with the slot key \<open>k\<close>.\<close>

fun invokes :: "string \<Rightarrow> call \<Rightarrow> bool" where
  "invokes k (Start env key dev) = (key = k)"
| "invokes k (Stop key) = (key = k)"
| "invokes k (Hotplug env action dev id_path) =
     (id_path = Some k \<and> k \<noteq> [] \<and>
      (action = Some ''add'' \<and> \<not> falsy dev \<or> action = Some ''remove''))"
| "invokes k (Get_devices env) = False"

subsection \<open>The slot invariant, and slots and environments to run the supervisor on\<close>

text \<open>The invariant of a slot: a running slot has a pid and a device node, a stopped slot
  has neither.\<close>

definition slot_inv :: "SlotState \<Rightarrow> bool" where
  "slot_inv slot =
     (if running slot then pid slot \<noteq> None \<and> devnode slot \<noteq> None
      else pid slot = None \<and> devnode slot = None)"

text \<open>The generation counter of the slot with key \<open>k\<close>, if it is configured.\<close>

definition gen :: "slots \<Rightarrow> string \<Rightarrow> int option" where
  "gen sl k = map_option last_gen (map_of sl k)"

text \<open>An operating system in which no process is alive, no port is listening and no proxy
  can be started; and one in which the process \<open>p\<close> is alive, every port is listening
  and a started proxy gets the pid \<open>p\<close>.\<close>

definition dead_env :: os_env where
  "dead_env =
     \<lparr>is_process_alive = (\<lambda>p. False), is_port_listening = (\<lambda>port. False),
      start_proxy = (\<lambda>port dev. Inl ''No serial proxy executable found'')\<rparr>"

definition healthy_env :: "int \<Rightarrow> os_env" where
  "healthy_env p =
     \<lparr>is_process_alive = (\<lambda>q. q = p), is_port_listening = (\<lambda>port. True),
      start_proxy = (\<lambda>port dev. Inr p)\<rparr>"

text \<open>A freshly configured slot, and the same slot with a proxy running on it.\<close>

definition stopped_slot :: SlotState where
  "stopped_slot = new_slot ''A'' ''usb-1'' 4001"

definition running_slot :: SlotState where
  "running_slot =
     stopped_slot
       \<lparr>running := True, pid := Some 1234, devnode := Some ''/dev/ttyUSB0'', last_gen := 1\<rparr>"

section \<open>Streams of complete frames\<close>

text \<open>
  The byte streams the codec is meant for, as sequences of frames: a data byte other than
  \<open>IAC\<close>, the escape \<open>IAC IAC\<close>, an option negotiation \<open>IAC cmd opt\<close> and a
  COM-PORT-OPTION subnegotiation \<open>IAC SB 44 subcmd payload IAC SE\<close>. A subnegotiation
  is well delimited when \<open>IAC SE\<close> does not occur inside \<open>subcmd payload\<close>, so that
  the first \<open>IAC SE\<close> after the header is its terminator.
\<close>

fun no_iac_se :: "byte list \<Rightarrow> bool" where
  "no_iac_se (a # b # xs) = (\<not> (a = IAC \<and> b = SE) \<and> no_iac_se (b # xs))"
| "no_iac_se xs = True"

datatype frame =
    Data byte
  | Escaped_IAC
  | Negotiation byte byte
  | Subnegotiation byte "byte list"

fun encode_frame :: "frame \<Rightarrow> byte list" where
  "encode_frame (Data b) = [b]"
| "encode_frame Escaped_IAC = [IAC, IAC]"
| "encode_frame (Negotiation cmd opt) = [IAC, cmd, opt]"
| "encode_frame (Subnegotiation subcmd payload) =
     [IAC, SB, COM_PORT_OPTION, subcmd] @ payload @ [IAC, SE]"

fun valid_frame :: "frame \<Rightarrow> bool" where
  "valid_frame (Data b) = (b \<noteq> IAC)"
| "valid_frame Escaped_IAC = True"
| "valid_frame (Negotiation cmd opt) = (cmd = DO \<or> cmd = DONT \<or> cmd = WILL \<or> cmd = WONT)"
| "valid_frame (Subnegotiation subcmd payload) = no_iac_se (subcmd # payload)"

definition encode :: "frame list \<Rightarrow> byte list" where
  "encode fs = concat (map encode_frame fs)"

text \<open>What an option negotiation \<open>IAC cmd opt\<close> does to the proxy in the loop of
  \<open>handle_rfc2217\<close>.\<close>

definition negotiate :: "byte \<Rightarrow> byte \<Rightarrow> proxy \<Rightarrow> proxy" where
  "negotiate cmd opt st =
     (if cmd = DO \<and> opt = COM_PORT_OPTION then send_telnet WILL COM_PORT_OPTION st
      else if cmd = WILL \<and> opt = COM_PORT_OPTION then send_telnet DO COM_PORT_OPTION st
      else st)"

text \<open>Two successive reads: \<open>handle_rfc2217\<close> on the first buffer, then on the second,
  with the application data of both written to the serial port in that order.\<close>

definition feed_two :: "byte list \<Rightarrow> byte list \<Rightarrow> proxy \<Rightarrow> proxy \<times> byte list" where
  "feed_two a b st =
     (case handle_rfc2217 a st of
        (st1, out1) \<Rightarrow> (case handle_rfc2217 b st1 of (st2, out2) \<Rightarrow> (st2, out1 @ out2)))"

text \<open>A proxy after \<open>open_serial\<close> with pyserial's default settings, with a client
  connected, nothing sent and nothing logged yet.\<close>

definition connected_proxy :: proxy where
  "connected_proxy =
     \<lparr>serial_baudrate = 115200, serial_bytesize = 8, serial_parity = CHR ''N'',
      serial_stopbits = 1, serial_dtr = True, serial_rts = True,
      client_socket = Some [], logger = []\<rparr>"

section \<open>Reply frames\<close>

text \<open>The frame \<open>_send_com_port_option\<close> builds: the payload stands between the header
  and \<open>IAC SE\<close> as it is.\<close>

definition com_port_frame :: "int \<Rightarrow> byte list \<Rightarrow> byte list" where
  "com_port_frame resp_cmd payload =
     [IAC, SB, COM_PORT_OPTION, word_of_int resp_cmd] @ payload @ [IAC, SE]"

text \<open>What one call of \<open>_handle_com_port_option\<close> may add to the messages \<open>sent\<close>
  on the client socket: nothing, or one frame with the given response command.\<close>

definition sends_at_most_one_frame :: "byte list list \<Rightarrow> int \<Rightarrow> proxy \<Rightarrow> bool" where
  "sends_at_most_one_frame sent resp_cmd st' =
     (client_socket st' = Some sent \<or>
      (0 \<le> resp_cmd \<and> resp_cmd < 256 \<and>
       (\<exists>payload. client_socket st' = Some (sent @ [com_port_frame resp_cmd payload]))))"

text \<open>The reply frame as the specification words it, for comparison with the code:
  \<open>resp_cmd = subcmd + 100\<close>, and every \<open>0xFF\<close> of the payload doubled.\<close>

fun escape_iac :: "byte list \<Rightarrow> byte list" where
  "escape_iac [] = []"
| "escape_iac (b # bs) = (if b = IAC then [IAC, IAC] else [b]) @ escape_iac bs"

definition spec_reply_frame :: "byte \<Rightarrow> byte list \<Rightarrow> byte list" where
  "spec_reply_frame subcmd payload =
     [IAC, SB, COM_PORT_OPTION, subcmd + 100] @ escape_iac payload @ [IAC, SE]"

text \<open>A payload shorter than the handler's branch for its subcommand needs: fewer than
  four bytes for SET\_BAUDRATE, none for SET\_DATASIZE, SET\_PARITY, SET\_STOPSIZE and
  SET\_CONTROL.\<close>

definition payload_too_short :: "byte \<Rightarrow> byte list \<Rightarrow> bool" where
  "payload_too_short subcmd payload =
     (subcmd = SET_BAUDRATE \<and> length payload < 4 \<or>
      (subcmd = SET_DATASIZE \<or> subcmd = SET_PARITY \<or> subcmd = SET_STOPSIZE
         \<or> subcmd = SET_CONTROL) \<and> payload = [])"

section \<open>Properties of the frame codec\<close>

subsection \<open>The parser loop on a suffix of its buffer\<close>

lemma find_in_shift: "find_in sub xs (n + j) = map_option (\<lambda>k. n + k) (find_in sub xs j)"
  by (induction xs arbitrary: j) (auto simp flip: add_Suc_right)

lemma bytes_find_append:
  "bytes_find (p @ d) sub (length p + s) = map_option (\<lambda>k. length p + k) (bytes_find d sub s)"
  by (simp add: bytes_find_def find_in_shift)

lemma py_slice_append: "py_slice (p @ d) (length p + a) (length p + b) = py_slice d a b"
  by (simp add: py_slice_def)

lemma handle_loop_append_left:
  "handle_loop (p @ d) (length p + i) st out = handle_loop d i st out"
proof (induction d i st out rule: handle_loop.induct)
  case (1 data i st outp)
  have n: "\<And>k. (p @ data) ! (length p + k) = data ! k" by simp
  have a1: "\<And>k. length p + i + k = length p + (i + k)" by simp
  show ?case
    apply (subst handle_loop.simps [of "p @ data"])
    apply (subst handle_loop.simps [of data])
    using 1
    apply (simp only: n a1 length_append nat_add_left_cancel_less bytes_find_append py_slice_append Let_def)
    apply (auto simp: Let_def py_slice_append split: option.splits)
    done
qed

lemma handle_loop_output:
  "handle_loop d i st (pre @ out) = (case handle_loop d i st out of (s, r) \<Rightarrow> (s, pre @ r))"
proof (induction d i st out rule: handle_loop.induct)
  case (1 data i st outp)
  show ?case
    apply (subst handle_loop.simps [of data i st "pre @ outp"])
    apply (subst handle_loop.simps [of data i st outp])
    using 1
    apply (auto simp: Let_def split: option.splits)
    done
qed

lemma handle_loop_output_nil:
  "handle_loop d i st out = (case handle_loop d i st [] of (s, r) \<Rightarrow> (s, out @ r))"
  using handle_loop_output [of d i st out "[]"] by simp

lemma handle_loop_end: "length data \<le> i \<Longrightarrow> handle_loop data i st out = (st, out)"
  by (subst handle_loop.simps) simp

lemma handle_loop_skip_Suc:
  "handle_loop (a # rest) (Suc i) st out = handle_loop rest i st out"
  using handle_loop_append_left [of "[a]" rest i st out] by simp

lemma handle_loop_skip_numeral:
  "handle_loop (a # rest) (numeral k) st out = handle_loop rest (pred_numeral k) st out"
  by (simp add: numeral_eq_Suc handle_loop_skip_Suc)

lemmas handle_loop_skip = handle_loop_skip_Suc handle_loop_skip_numeral

lemma handle_loop_skip_append:
  "handle_loop (p @ rest) (length p) st out = handle_loop rest 0 st out"
  using handle_loop_append_left [of p rest 0 st out] by simp

subsection \<open>One frame at the head of the buffer\<close>

lemma find_in_terminator:
  "no_iac_se xs \<Longrightarrow> find_in [IAC, SE] (xs @ IAC # SE # rest) j = Some (j + length xs)"
  by (induction xs arbitrary: j rule: no_iac_se.induct) auto

lemma handle_loop_data:
  "b \<noteq> IAC \<Longrightarrow> handle_loop (b # rest) 0 st out = handle_loop rest 0 st (out @ [b])"
  by (subst handle_loop.simps) (simp add: handle_loop_skip)

lemma handle_loop_escaped:
  "handle_loop (IAC # IAC # rest) 0 st out = handle_loop rest 0 st (out @ [IAC])"
  by (subst handle_loop.simps) (simp add: handle_loop_skip)

lemma handle_loop_negotiation:
  assumes "cmd = DO \<or> cmd = DONT \<or> cmd = WILL \<or> cmd = WONT"
  shows "handle_loop (IAC # cmd # opt # rest) 0 st out =
         handle_loop rest 0 (negotiate cmd opt st) out"
  using assms
  apply (elim disjE)
     apply (subst handle_loop.simps, simp add: handle_loop_skip negotiate_def Let_def)+
  done

lemma handle_loop_subnegotiation:
  assumes "no_iac_se (subcmd # payload)"
  shows "handle_loop (IAC # SB # COM_PORT_OPTION # subcmd # payload @ IAC # SE # rest) 0 st out =
         handle_loop rest 0 (handle_com_port_option subcmd payload st) out"
proof -
  let ?data = "IAC # SB # COM_PORT_OPTION # subcmd # payload @ IAC # SE # rest"
  have d: "?data = (IAC # SB # COM_PORT_OPTION # subcmd # payload @ [IAC, SE]) @ rest" by simp
  have f: "bytes_find ?data [IAC, SE] (0 + 3) = Some (4 + length payload)"
    using find_in_terminator [OF assms, of rest 3]
    by (simp add: bytes_find_def numeral_3_eq_3)
  have s: "py_slice ?data (0 + 4) (4 + length payload) = payload"
    by (simp add: py_slice_def numeral_eq_Suc)
  have n: "?data ! (0 + 3) = subcmd" by (simp add: numeral_3_eq_3)
  have l: "4 + length payload + 2 = length (IAC # SB # COM_PORT_OPTION # subcmd # payload @ [IAC, SE])"
    by simp
  have "handle_loop ?data 0 st out =
        handle_loop ?data (4 + length payload + 2) (handle_com_port_option subcmd payload st) out"
    apply (subst handle_loop.simps)
    apply (simp only: f s n Let_def option.case)
    apply simp
    done
  also have "\<dots> = handle_loop rest 0 (handle_com_port_option subcmd payload st) out"
    unfolding l unfolding d by (rule handle_loop_skip_append)
  finally show ?thesis .
qed

lemma handle_loop_frame:
  assumes "valid_frame f"
  shows "handle_loop (encode_frame f @ rest) 0 st out =
         (case handle_loop (encode_frame f) 0 st out of (st', out') \<Rightarrow> handle_loop rest 0 st' out')"
proof (cases f)
  case (Data b)
  with assms show ?thesis
    using handle_loop_data [of b rest st out] handle_loop_data [of b "[]" st out]
    by (simp add: handle_loop_end)
next
  case Escaped_IAC
  then show ?thesis
    using handle_loop_escaped [of rest st out] handle_loop_escaped [of "[]" st out]
    by (simp add: handle_loop_end)
next
  case (Negotiation cmd opt)
  with assms show ?thesis
    using handle_loop_negotiation [of cmd opt rest st out]
      handle_loop_negotiation [of cmd opt "[]" st out]
    by (simp add: handle_loop_end)
next
  case (Subnegotiation subcmd payload)
  with assms show ?thesis
    using handle_loop_subnegotiation [of subcmd payload rest st out]
      handle_loop_subnegotiation [of subcmd payload "[]" st out]
    by (simp add: handle_loop_end)
qed

lemma handle_loop_frames:
  "list_all valid_frame fs \<Longrightarrow>
   handle_loop (encode fs @ rest) 0 st out =
   (case handle_loop (encode fs) 0 st out of (st', out') \<Rightarrow> handle_loop rest 0 st' out')"
proof (induction fs arbitrary: st out rest)
  case Nil
  then show ?case by (simp add: encode_def handle_loop_end)
next
  case (Cons f fs)
  have e: "encode (f # fs) = encode_frame f @ encode fs" by (simp add: encode_def)
  from Cons.prems have vf: "valid_frame f" and vfs: "list_all valid_frame fs" by simp_all
  show ?case
    unfolding e append_assoc
    apply (subst handle_loop_frame [OF vf, of "encode fs @ rest"])
    apply (subst handle_loop_frame [OF vf, of "encode fs"])
    apply (simp add: Cons.IH [OF vfs] split: prod.splits)
    done
qed

subsection \<open>Splitting a stream between two reads\<close>

text \<open>
  Claim C1, as amended. When a stream is cut at a frame boundary, that is, the first read
  holds a sequence of complete frames (data bytes, \<open>IAC IAC\<close> escapes, option
  negotiations and well-delimited COM-PORT-OPTION subnegotiations) and the second read holds
  whatever follows, then feeding the two reads to \<open>handle_rfc2217\<close> one after the other
  gives the same application data, the same replies and the same serial settings as feeding
  the whole stream in one call. The codec keeps no bytes between calls, so nothing is
  claimed for a cut inside a frame.
\<close>

theorem split_at_frame_boundary:
  assumes "list_all valid_frame fs"
  shows "handle_rfc2217 (encode fs @ rest) st = feed_two (encode fs) rest st"
proof -
  obtain st1 out1 where h: "handle_loop (encode fs) 0 st [] = (st1, out1)"
    by (cases "handle_loop (encode fs) 0 st []")
  have "handle_loop (encode fs @ rest) 0 st [] = handle_loop rest 0 st1 out1"
    using handle_loop_frames [OF assms, of rest st "[]"] h by simp
  also have "\<dots> = (case handle_loop rest 0 st1 [] of (s, r) \<Rightarrow> (s, out1 @ r))"
    by (rule handle_loop_output_nil)
  finally show ?thesis
    by (simp add: handle_rfc2217_def feed_two_def h)
qed

theorem split_at_frame_boundary_witness:
  "list_all valid_frame [Data 65, Escaped_IAC, Negotiation DO COM_PORT_OPTION, Subnegotiation SET_CONTROL [8]]
   \<and> handle_rfc2217
        (encode [Data 65, Escaped_IAC, Negotiation DO COM_PORT_OPTION, Subnegotiation SET_CONTROL [8]]
           @ [IAC]) connected_proxy
     = feed_two
        (encode [Data 65, Escaped_IAC, Negotiation DO COM_PORT_OPTION, Subnegotiation SET_CONTROL [8]])
        [IAC] connected_proxy"
  using split_at_frame_boundary
    [of "[Data 65, Escaped_IAC, Negotiation DO COM_PORT_OPTION, Subnegotiation SET_CONTROL [8]]"
        "[IAC]" connected_proxy]
  by simp

text \<open>
  The claim as stated fails for a cut inside a frame. The valid stream \<open>IAC IAC\<close> cut
  after its first byte yields the data \<open>FF FF\<close> instead of \<open>FF\<close>; the valid
  subnegotiation \<open>FF FA 2C 05 08 FF F0\<close> cut before its terminator is not retained: its
  bytes \<open>2C 05 08\<close> are returned as application data, where the whole stream returns
  none.
\<close>

theorem split_inside_frame_counterexample:
  "list_all valid_frame [Escaped_IAC]
   \<and> feed_two (take 1 (encode [Escaped_IAC])) (drop 1 (encode [Escaped_IAC])) connected_proxy
       \<noteq> handle_rfc2217 (encode [Escaped_IAC]) connected_proxy
   \<and> list_all valid_frame [Subnegotiation SET_CONTROL [8]]
   \<and> snd (feed_two (take 5 (encode [Subnegotiation SET_CONTROL [8]]))
                    (drop 5 (encode [Subnegotiation SET_CONTROL [8]])) connected_proxy)
       = [COM_PORT_OPTION, SET_CONTROL, 8]
   \<and> snd (handle_rfc2217 (encode [Subnegotiation SET_CONTROL [8]]) connected_proxy) = []"
proof -
  have 1: "handle_rfc2217 [IAC, IAC] connected_proxy = (connected_proxy, [IAC])"
    by code_simp
  have 2: "feed_two [IAC] [IAC] connected_proxy = (connected_proxy, [IAC, IAC])"
    by code_simp
  have 3: "snd (feed_two [IAC, SB, COM_PORT_OPTION, SET_CONTROL, 8] [IAC, SE] connected_proxy)
           = [COM_PORT_OPTION, SET_CONTROL, 8]"
    by code_simp
  have 4: "snd (handle_rfc2217 [IAC, SB, COM_PORT_OPTION, SET_CONTROL, 8, IAC, SE] connected_proxy) = []"
    by code_simp
  show ?thesis
    by (simp add: encode_def 1 2 3 4)
qed

subsection \<open>SET\_BAUDRATE\<close>

lemma div_split:
  fixes h l :: int
  assumes "0 \<le> l" "l < m"
  shows "(h * m + l) div m = h"
  using assms by (simp add: div_pos_pos_trivial)

lemma word8_drop_high: "(word_of_int (h * 256 + l) :: byte) = word_of_int l"
proof -
  have "(word_of_int (h * 256 + l) :: byte) = word_of_int h * 256 + word_of_int l"
    by simp
  also have "(256 :: byte) = 0" by simp
  finally show ?thesis by simp
qed

lemma int_to_bytes4_big_from_bytes:
  "int_to_bytes4_big (int_from_bytes_big [a, b, c, d]) = Some [a, b, c, d]"
proof -
  define ua ub uc ud where "ua = uint a" and "ub = uint b" and "uc = uint c" and "ud = uint d"
  have bounds: "0 \<le> ua" "ua < 256" "0 \<le> ub" "ub < 256" "0 \<le> uc" "uc < 256" "0 \<le> ud" "ud < 256"
    using uint_lt2p [of a] uint_lt2p [of b] uint_lt2p [of c] uint_lt2p [of d]
    by (simp_all add: ua_def ub_def uc_def ud_def)
  define n where "n = ((ua * 256 + ub) * 256 + uc) * 256 + ud"
  have n: "int_from_bytes_big [a, b, c, d] = n"
    by (simp add: int_from_bytes_big_def n_def ua_def ub_def uc_def ud_def)
  have n0: "0 \<le> n" using bounds by (simp add: n_def)
  have n1: "n < 2 ^ 32" using bounds unfolding n_def by simp
  have d8: "n div 2 ^ 8 = (ua * 256 + ub) * 256 + uc"
    using div_split [of ud 256 "(ua * 256 + ub) * 256 + uc"] bounds by (simp add: n_def)
  have d16: "n div 2 ^ 16 = ua * 256 + ub"
    using div_split [of "uc * 256 + ud" 65536 "ua * 256 + ub"] bounds
    by (simp add: n_def algebra_simps)
  have d24: "n div 2 ^ 24 = ua"
    using div_split [of "(ub * 256 + uc) * 256 + ud" 16777216 ua] bounds
    by (simp add: n_def algebra_simps)
  have w: "(word_of_int ua :: byte) = a" "(word_of_int ub :: byte) = b"
      "(word_of_int uc :: byte) = c" "(word_of_int ud :: byte) = d"
    by (simp_all add: ua_def ub_def uc_def ud_def)
  have "(word_of_int n :: byte) = d"
    unfolding n_def by (simp only: word8_drop_high w)
  moreover have "(word_of_int (n div 2 ^ 8) :: byte) = c"
    unfolding d8 by (simp only: word8_drop_high w)
  moreover have "(word_of_int (n div 2 ^ 16) :: byte) = b"
    unfolding d16 by (simp only: word8_drop_high w)
  moreover have "(word_of_int (n div 2 ^ 24) :: byte) = a"
    unfolding d24 by (simp only: w)
  ultimately show ?thesis
    unfolding n int_to_bytes4_big_def using n0 n1 by simp
qed

lemma send_com_port_option_connected:
  assumes "client_socket st = Some sent" "0 \<le> resp" "resp < 256"
  shows "send_com_port_option resp payload st =
         st\<lparr>client_socket :=
              Some (sent @ [IAC # SB # COM_PORT_OPTION # word_of_int resp # payload @ [IAC, SE]])\<rparr>"
  using assms by (simp add: send_com_port_option_def bytes_of_ints_def)

text \<open>
  Claim C5, as amended. For every SET\_BAUDRATE (subcmd 1) subnegotiation whose four-byte
  payload, read as a big-endian unsigned integer, is greater than 0, handled while a client
  is connected, the serial baudrate is set to that value and the reply frame carries
  \<open>resp_cmd\<close> 101 and the applied baudrate as four big-endian bytes. Concretely,
  receiving \<open>FF FA 2C 01 00 0E 10 00 FF F0\<close> sets the baudrate to 921600 and produces the
  reply \<open>FF FA 2C 65 00 0E 10 00 FF F0\<close>.
\<close>

theorem set_baudrate_applies_and_replies:
  assumes "client_socket st = Some sent"
    and "0 < int_from_bytes_big [a, b, c, d]"
  shows "handle_com_port_option SET_BAUDRATE [a, b, c, d] st =
           st\<lparr>serial_baudrate := int_from_bytes_big [a, b, c, d],
               logger := logger st @ [Baudrate_changed (int_from_bytes_big [a, b, c, d])],
               client_socket :=
                 Some (sent @ [[IAC, SB, COM_PORT_OPTION, 101, a, b, c, d, IAC, SE]])\<rparr>
         \<and> handle_rfc2217 [0xFF, 0xFA, 0x2C, 0x01, 0x00, 0x0E, 0x10, 0x00, 0xFF, 0xF0]
               connected_proxy =
             (connected_proxy
                \<lparr>serial_baudrate := 921600,
                 logger := [Baudrate_changed 921600],
                 client_socket :=
                   Some [[0xFF, 0xFA, 0x2C, 0x65, 0x00, 0x0E, 0x10, 0x00, 0xFF, 0xF0]]\<rparr>, [])"
proof
  show "handle_com_port_option SET_BAUDRATE [a, b, c, d] st =
           st\<lparr>serial_baudrate := int_from_bytes_big [a, b, c, d],
               logger := logger st @ [Baudrate_changed (int_from_bytes_big [a, b, c, d])],
               client_socket :=
                 Some (sent @ [[IAC, SB, COM_PORT_OPTION, 101, a, b, c, d, IAC, SE]])\<rparr>"
    using assms
    by (simp add: handle_com_port_option_def Let_def reply_def log_def
        int_to_bytes4_big_from_bytes send_com_port_option_connected)
  show "handle_rfc2217 [0xFF, 0xFA, 0x2C, 0x01, 0x00, 0x0E, 0x10, 0x00, 0xFF, 0xF0]
               connected_proxy =
             (connected_proxy
                \<lparr>serial_baudrate := 921600,
                 logger := [Baudrate_changed 921600],
                 client_socket :=
                   Some [[0xFF, 0xFA, 0x2C, 0x65, 0x00, 0x0E, 0x10, 0x00, 0xFF, 0xF0]]\<rparr>, [])"
    by code_simp
qed

theorem set_baudrate_applies_and_replies_witness:
  "client_socket connected_proxy = Some []
   \<and> 0 < int_from_bytes_big [0x00, 0x1C, 0x20, 0x00]
   \<and> handle_com_port_option SET_BAUDRATE [0x00, 0x1C, 0x20, 0x00] connected_proxy =
       connected_proxy
         \<lparr>serial_baudrate := 1843200,
          logger := [Baudrate_changed 1843200],
          client_socket :=
            Some [[IAC, SB, COM_PORT_OPTION, 101, 0x00, 0x1C, 0x20, 0x00, IAC, SE]]\<rparr>"
proof -
  have c: "client_socket connected_proxy = Some []" by (simp add: connected_proxy_def)
  have v: "int_from_bytes_big [0x00, 0x1C, 0x20, 0x00] = 1843200"
    by (simp add: int_from_bytes_big_def)
  have p: "0 < int_from_bytes_big [0x00, 0x1C, 0x20, 0x00]" by (simp add: v)
  have l: "logger connected_proxy = []" by (simp add: connected_proxy_def)
  show ?thesis
    using set_baudrate_applies_and_replies [OF c p] c p by (simp add: v l)
qed

text \<open>
  The bytes of the claim's example, \<open>FF FA 2C 01 00 00 E1 00 FF F0\<close>, carry the payload
  \<open>0x0000E100\<close>, which is 57600 and not 921600: the baudrate becomes 57600 and the reply
  echoes \<open>00 00 E1 00\<close>, not \<open>00 0E 10 00\<close>.
\<close>

theorem spec_baudrate_example_counterexample:
  "serial_baudrate
     (fst (handle_rfc2217 [0xFF, 0xFA, 0x2C, 0x01, 0x00, 0x00, 0xE1, 0x00, 0xFF, 0xF0]
             connected_proxy)) = 57600
   \<and> serial_baudrate
     (fst (handle_rfc2217 [0xFF, 0xFA, 0x2C, 0x01, 0x00, 0x00, 0xE1, 0x00, 0xFF, 0xF0]
             connected_proxy)) \<noteq> 921600
   \<and> client_socket
     (fst (handle_rfc2217 [0xFF, 0xFA, 0x2C, 0x01, 0x00, 0x00, 0xE1, 0x00, 0xFF, 0xF0]
             connected_proxy))
     = Some [[0xFF, 0xFA, 0x2C, 0x65, 0x00, 0x00, 0xE1, 0x00, 0xFF, 0xF0]]
   \<and> client_socket
     (fst (handle_rfc2217 [0xFF, 0xFA, 0x2C, 0x01, 0x00, 0x00, 0xE1, 0x00, 0xFF, 0xF0]
             connected_proxy))
     \<noteq> Some [[0xFF, 0xFA, 0x2C, 0x65, 0x00, 0x0E, 0x10, 0x00, 0xFF, 0xF0]]"
proof -
  have "handle_rfc2217 [0xFF, 0xFA, 0x2C, 0x01, 0x00, 0x00, 0xE1, 0x00, 0xFF, 0xF0]
          connected_proxy =
        (connected_proxy
           \<lparr>serial_baudrate := 57600,
            logger := [Baudrate_changed 57600],
            client_socket :=
              Some [[0xFF, 0xFA, 0x2C, 0x65, 0x00, 0x00, 0xE1, 0x00, 0xFF, 0xF0]]\<rparr>, [])"
    by code_simp
  then show ?thesis by simp
qed

subsection \<open>Subnegotiations of other options\<close>

text \<open>
  Claim C6 says that \<open>IAC SB x \<dots> IAC SE\<close> with \<open>x \<noteq> 44\<close> is consumed up to and
  including its \<open>IAC SE\<close>. The code skips only the two bytes \<open>IAC SB\<close>: on the
  TERMINAL-TYPE subnegotiation \<open>FF FA 18 01 FF F0\<close> the option byte and the payload,
  \<open>18 01\<close>, are returned as application data for the serial port.
\<close>

theorem other_subnegotiation_reaches_serial:
  "handle_rfc2217 [IAC, SB, 24, 1, IAC, SE] connected_proxy = (connected_proxy, [24, 1])"
  by code_simp

subsection \<open>SET\_STOPSIZE\<close>

text \<open>
  Claim C9 says that after payload 3 (1.5 stop bits) the echoed payload byte is 3. The code
  sets 1.5 stop bits and then looks up \<open>int(self.serial.stopbits)\<close>, which is 1, in its
  reverse map: on \<open>FF FA 2C 04 03 FF F0\<close> the reply is \<open>FF FA 2C 68 01 FF F0\<close>.
\<close>

theorem stopsize_one_and_a_half_echoes_one:
  "handle_rfc2217 [IAC, SB, COM_PORT_OPTION, SET_STOPSIZE, 3, IAC, SE] connected_proxy =
     (connected_proxy
        \<lparr>serial_stopbits := 3 / 2,
         logger := [Stop_bits_changed (3 / 2)],
         client_socket := Some [[IAC, SB, COM_PORT_OPTION, 104, 1, IAC, SE]]\<rparr>, [])"
  by code_simp

subsection \<open>Reply framing\<close>

lemma send_com_port_option_frame:
  assumes "client_socket st = Some sent"
  shows "sends_at_most_one_frame sent resp (send_com_port_option resp payload st)"
proof (cases "0 \<le> resp \<and> resp < 256")
  case True
  then have "client_socket (send_com_port_option resp payload st) =
             Some (sent @ [com_port_frame resp payload])"
    using assms by (simp add: send_com_port_option_connected com_port_frame_def)
  with True show ?thesis unfolding sends_at_most_one_frame_def by blast
next
  case False
  then have "send_com_port_option resp payload st = st"
    using assms by (simp add: send_com_port_option_def bytes_of_ints_def)
  with assms show ?thesis by (simp add: sends_at_most_one_frame_def)
qed

lemma client_socket_log: "client_socket (log e st) = client_socket st"
  by (simp add: log_def)

lemma reply_frame:
  assumes "client_socket st = Some sent"
  shows "sends_at_most_one_frame sent resp (reply resp payload exn st)"
proof (cases payload)
  case None
  then show ?thesis
    using assms by (simp add: reply_def client_socket_log sends_at_most_one_frame_def)
next
  case (Some bs)
  then show ?thesis
    using send_com_port_option_frame [OF assms] by (simp add: reply_def)
qed

lemma handle_com_port_option_frame:
  assumes "client_socket st = Some sent"
  shows "sends_at_most_one_frame sent (uint subcmd + 100) (handle_com_port_option subcmd data st)"
  unfolding handle_com_port_option_def Let_def
  by (simp add: reply_frame send_com_port_option_frame client_socket_log assms)

text \<open>
  Claim C7, as amended. Every COM-PORT-OPTION reply sent to a connected client is framed as
  \<open>IAC SB 44 resp_cmd payload IAC SE\<close> with \<open>resp_cmd = subcmd + 100\<close>: one call of
  the handler sends nothing or exactly one such frame (nothing when \<open>subcmd + 100\<close>
  exceeds 255), and the payload is sent as it is, a \<open>0xFF\<close> byte in it included.
\<close>

theorem replies_are_framed_verbatim:
  assumes "client_socket st = Some sent"
  shows "sends_at_most_one_frame sent (uint subcmd + 100) (handle_com_port_option subcmd data st)
         \<and> (0 \<le> resp \<and> resp < 256 \<longrightarrow>
              client_socket (send_com_port_option resp payload st) =
                Some (sent @ [[IAC, SB, COM_PORT_OPTION, word_of_int resp] @ payload @ [IAC, SE]]))"
  using assms
  by (simp add: handle_com_port_option_frame send_com_port_option_connected)

theorem replies_are_framed_verbatim_witness:
  "client_socket connected_proxy = Some []
   \<and> sends_at_most_one_frame [] 101
        (handle_com_port_option SET_BAUDRATE [0, 0, 0, 255] connected_proxy)
   \<and> client_socket (send_com_port_option 101 [0, 0, 0, 255] connected_proxy) =
        Some [[IAC, SB, COM_PORT_OPTION, 101, 0, 0, 0, 255, IAC, SE]]"
proof -
  have c: "client_socket connected_proxy = Some []" by (simp add: connected_proxy_def)
  show ?thesis
    using replies_are_framed_verbatim
      [OF c, of SET_BAUDRATE "[0, 0, 0, 255]" 101 "[0, 0, 0, 255]"] c
    by simp
qed

text \<open>
  The claim as stated fails: nothing doubles a \<open>0xFF\<close> of a reply payload. The reply to
  SET\_BAUDRATE 255 carries the payload \<open>00 00 00 FF\<close>, where escape-doubling would
  send \<open>00 00 00 FF FF\<close>.
\<close>

theorem reply_payload_not_escaped_counterexample:
  "client_socket (handle_com_port_option SET_BAUDRATE [0, 0, 0, 255] connected_proxy) =
     Some [[IAC, SB, COM_PORT_OPTION, 101, 0, 0, 0, 255, IAC, SE]]
   \<and> spec_reply_frame SET_BAUDRATE [0, 0, 0, 255] =
     [IAC, SB, COM_PORT_OPTION, 101, 0, 0, 0, 255, 255, IAC, SE]
   \<and> client_socket (handle_com_port_option SET_BAUDRATE [0, 0, 0, 255] connected_proxy) \<noteq>
     Some [spec_reply_frame SET_BAUDRATE [0, 0, 0, 255]]"
proof -
  have 1: "client_socket (handle_com_port_option SET_BAUDRATE [0, 0, 0, 255] connected_proxy) =
     Some [[IAC, SB, COM_PORT_OPTION, 101, 0, 0, 0, 255, IAC, SE]]"
    by code_simp
  have 2: "spec_reply_frame SET_BAUDRATE [0, 0, 0, 255] =
     [IAC, SB, COM_PORT_OPTION, 101, 0, 0, 0, 255, 255, IAC, SE]"
    by (simp add: spec_reply_frame_def)
  show ?thesis unfolding 1 2 by simp
qed

subsection \<open>Short payloads\<close>

lemma handle_com_port_option_short:
  assumes "payload_too_short subcmd payload" "client_socket st = Some sent"
  shows "handle_com_port_option subcmd payload st =
         st\<lparr>client_socket :=
              Some (sent @ [IAC # SB # COM_PORT_OPTION # (subcmd + 100)
                              # (if payload = [] then [0] else payload) @ [IAC, SE]])\<rparr>"
  using assms(1) unfolding payload_too_short_def
  by (elim disjE conjE)
     (simp_all add: handle_com_port_option_def send_com_port_option_connected [OF assms(2)])

text \<open>
  Claim C8, as amended. For every well-delimited COM-PORT-OPTION subnegotiation whose
  payload is shorter than its subcommand requires, received while a client is connected, no
  serial setting is changed, nothing is logged and no byte of it is returned as application
  data; the subnegotiation is acknowledged like an unknown command, with the reply frame
  \<open>IAC SB 44 (subcmd + 100) payload IAC SE\<close>, the payload being \<open>00\<close> when the
  received one is empty.
\<close>

theorem short_payload_is_acknowledged:
  assumes "payload_too_short subcmd payload"
    and "client_socket st = Some sent"
    and "no_iac_se (subcmd # payload)"
  shows "handle_rfc2217 (IAC # SB # COM_PORT_OPTION # subcmd # payload @ [IAC, SE]) st =
         (st\<lparr>client_socket :=
               Some (sent @ [IAC # SB # COM_PORT_OPTION # (subcmd + 100)
                               # (if payload = [] then [0] else payload) @ [IAC, SE]])\<rparr>, [])"
  using handle_loop_subnegotiation [OF assms(3), of "[]" st "[]"]
  by (simp add: handle_rfc2217_def handle_loop_end
      handle_com_port_option_short [OF assms(1) assms(2)])

theorem short_payload_is_acknowledged_witness:
  "payload_too_short SET_BAUDRATE [0, 1]
   \<and> client_socket connected_proxy = Some []
   \<and> no_iac_se [SET_BAUDRATE, 0, 1]
   \<and> handle_rfc2217 [IAC, SB, COM_PORT_OPTION, SET_BAUDRATE, 0, 1, IAC, SE] connected_proxy =
       (connected_proxy
          \<lparr>client_socket := Some [[IAC, SB, COM_PORT_OPTION, 101, 0, 1, IAC, SE]]\<rparr>, [])"
proof -
  have s: "payload_too_short SET_BAUDRATE [0, 1]" by (simp add: payload_too_short_def)
  have c: "client_socket connected_proxy = Some []" by (simp add: connected_proxy_def)
  have n: "no_iac_se [SET_BAUDRATE, 0, 1]" by simp
  show ?thesis
    using short_payload_is_acknowledged [OF s c n] s c n by simp
qed

text \<open>
  The claim as stated fails: SET\_CONTROL with an empty payload, \<open>FF FA 2C 05 FF F0\<close>,
  is answered with the reply frame \<open>FF FA 2C 69 00 FF F0\<close>, and nothing is logged.
\<close>

theorem short_payload_gets_reply_counterexample:
  "payload_too_short SET_CONTROL []
   \<and> handle_rfc2217 [IAC, SB, COM_PORT_OPTION, SET_CONTROL, IAC, SE] connected_proxy =
       (connected_proxy
          \<lparr>client_socket := Some [[IAC, SB, COM_PORT_OPTION, 105, 0, IAC, SE]]\<rparr>, [])
   \<and> client_socket
        (fst (handle_rfc2217 [IAC, SB, COM_PORT_OPTION, SET_CONTROL, IAC, SE] connected_proxy))
       \<noteq> client_socket connected_proxy
   \<and> logger
        (fst (handle_rfc2217 [IAC, SB, COM_PORT_OPTION, SET_CONTROL, IAC, SE] connected_proxy))
       = logger connected_proxy"
proof -
  have 1: "handle_rfc2217 [IAC, SB, COM_PORT_OPTION, SET_CONTROL, IAC, SE] connected_proxy =
       (connected_proxy
          \<lparr>client_socket := Some [[IAC, SB, COM_PORT_OPTION, 105, 0, IAC, SE]]\<rparr>, [])"
    by code_simp
  show ?thesis unfolding 1 by (simp add: payload_too_short_def connected_proxy_def)
qed

subsection \<open>A trailing IAC\<close>

text \<open>
  Claim C10. When the parser loop reaches the last byte of the buffer and that byte is
  \<open>IAC\<close>, the byte is appended to the application data and the call returns: it is not
  held back for the next read. In particular a buffer made of complete frames followed by a
  single \<open>IAC\<close> yields the data of the frames followed by \<open>0xFF\<close>.
\<close>

theorem trailing_iac_is_data:
  "(Suc i = length data \<and> data ! i = IAC \<longrightarrow>
      handle_loop data i st out = (st, out @ [IAC]))
   \<and> (list_all valid_frame fs \<longrightarrow>
      handle_rfc2217 (encode fs @ [IAC]) st =
        (case handle_rfc2217 (encode fs) st of (st', r) \<Rightarrow> (st', r @ [IAC])))"
proof (intro conjI impI)
  assume a: "Suc i = length data \<and> data ! i = IAC"
  then have "handle_loop data i st out = handle_loop data (i + 1) st (out @ [data ! i])"
    by (subst handle_loop.simps) auto
  also have "\<dots> = (st, out @ [IAC])"
    using a by (simp add: handle_loop_end)
  finally show "handle_loop data i st out = (st, out @ [IAC])" .
next
  assume v: "list_all valid_frame fs"
  have one: "handle_loop [IAC] 0 s r = (s, r @ [IAC])" for s r
    by (subst handle_loop.simps) (simp add: handle_loop_end)
  show "handle_rfc2217 (encode fs @ [IAC]) st =
        (case handle_rfc2217 (encode fs) st of (st', r) \<Rightarrow> (st', r @ [IAC]))"
    unfolding handle_rfc2217_def handle_loop_frames [OF v]
    by (simp add: one split: prod.splits)
qed

theorem trailing_iac_is_data_witness:
  "handle_loop [65, IAC] 1 connected_proxy [65] = (connected_proxy, [65, IAC])
   \<and> handle_rfc2217 [65, IAC, IAC, IAC] connected_proxy = (connected_proxy, [65, IAC, IAC])"
proof -
  have h: "handle_rfc2217 [65, IAC, IAC] connected_proxy = (connected_proxy, [65, IAC])"
    by code_simp
  show ?thesis
    using trailing_iac_is_data [of 1 "[65, IAC]" connected_proxy "[65]" "[Data 65, Escaped_IAC]"]
    by (simp add: encode_def h)
qed

section \<open>Properties of the slot supervisor\<close>

subsection \<open>The slot invariant\<close>

text \<open>\<open>start\<close> leaves the slot in a state that satisfies the invariant, and \<open>stop\<close>
  preserves it.\<close>

lemma start_slot_establishes_inv: "slot_inv (snd (start_slot env dev slot))"
  by (auto simp: start_slot_def slot_inv_def Let_def pid_truthy_def split: sum.splits option.splits)

lemma stop_slot_preserves_inv: "slot_inv slot \<Longrightarrow> slot_inv (snd (stop_slot slot))"
  by (auto simp: stop_slot_def slot_inv_def Let_def)

text \<open>
  Claim C2 says that every supervisor operation preserves the invariant and that the reap of
  \<open>get_devices\<close> clears \<open>running\<close>, \<open>pid\<close> and \<open>devnode\<close>. The reap clears
  \<open>running\<close> and \<open>pid\<close> and sets \<open>last_error\<close>, but leaves \<open>devnode\<close>: on a
  running slot whose process has died, \<open>get_devices\<close> reports and stores
  \<open>running = False\<close> with the device node still set, which breaks the invariant.
\<close>

theorem get_devices_keeps_devnode_of_dead_slot:
  "slot_inv running_slot
   \<and> snd (get_devices dead_env ''192.168.1.10'' [(''usb-1'', running_slot)]) =
       [(''usb-1'', running_slot\<lparr>running := False, pid := None,
                                  last_error := Some ''Process died''\<rparr>)]
   \<and> map info_devnode (fst (get_devices dead_env ''192.168.1.10'' [(''usb-1'', running_slot)])) =
       [Some ''/dev/ttyUSB0'']
   \<and> map info_running (fst (get_devices dead_env ''192.168.1.10'' [(''usb-1'', running_slot)])) =
       [False]
   \<and> \<not> slot_inv (reap dead_env running_slot)"
  by (simp add: get_devices_def reap_def snapshot_def slot_inv_def running_slot_def new_slot_def
      dead_env_def pid_truthy_def pid_alive_def)

subsection \<open>The generation counter\<close>

lemma map_of_update_slot:
  "map_of (update_slot key s' sl) k =
     (if k = key then map_option (\<lambda>s. s') (map_of sl k) else map_of sl k)"
  by (induction sl) (auto simp: update_slot_def)

lemma last_gen_start_slot: "last_gen (snd (start_slot env dev s)) = last_gen s + 1"
  by (auto simp: start_slot_def Let_def split: sum.splits)

lemma last_gen_stop_slot: "last_gen (snd (stop_slot s)) = last_gen s + 1"
  by (auto simp: stop_slot_def Let_def)

lemma last_gen_reap: "last_gen (reap env s) = last_gen s"
  by (simp add: reap_def)

lemma snd_start:
  "snd (start env key dev sl) =
     (case map_of sl key of
        None \<Rightarrow> sl
      | Some slot \<Rightarrow> update_slot key (snd (start_slot env dev slot)) sl)"
  by (simp add: start_def split: option.splits prod.splits)

lemma snd_stop:
  "snd (stop key sl) =
     (case map_of sl key of
        None \<Rightarrow> sl
      | Some slot \<Rightarrow> update_slot key (snd (stop_slot slot)) sl)"
  by (simp add: stop_def split: option.splits prod.splits)

lemma gen_start:
  "gen (snd (start env key dev sl)) k =
     (if key = k then map_option (\<lambda>g. g + 1) (gen sl k) else gen sl k)"
  by (simp add: gen_def snd_start map_of_update_slot last_gen_start_slot split: option.splits)

lemma gen_stop:
  "gen (snd (stop key sl)) k =
     (if key = k then map_option (\<lambda>g. g + 1) (gen sl k) else gen sl k)"
  by (simp add: gen_def snd_stop map_of_update_slot last_gen_stop_slot split: option.splits)

lemma gen_get_devices: "gen (snd (get_devices env ip sl)) k = gen sl k"
proof -
  have "map_of (map (\<lambda>(k, s). (k, reap env s)) sl) k = map_option (reap env) (map_of sl k)"
    by (induction sl) auto
  then show ?thesis
    by (simp add: gen_def get_devices_def Let_def option.map_comp comp_def last_gen_reap)
qed

lemma snd_hotplug:
  "snd (hotplug env action dev id_path sl) =
     (if falsy action \<or> falsy id_path then sl
      else if action = Some ''add'' then
        (if falsy dev then sl else snd (start env (the id_path) (the dev) sl))
      else if action = Some ''remove'' then snd (stop (the id_path) sl)
      else sl)"
  by (simp add: hotplug_def split: prod.splits)

lemma gen_hotplug:
  "gen (snd (hotplug env action dev id_path sl)) k =
     (if invokes k (Hotplug env action dev id_path)
      then map_option (\<lambda>g. g + 1) (gen sl k) else gen sl k)"
proof (cases "map_of sl k")
  case None
  then have n: "gen sl k = None" by (simp add: gen_def)
  show ?thesis
    by (simp add: snd_hotplug gen_start gen_stop n)
next
  case (Some s)
  show ?thesis
    by (cases id_path; cases action)
       (auto simp: snd_hotplug gen_start gen_stop falsy_def)
qed

lemma gen_run_call:
  "gen (run_call c sl) k =
     (if invokes k c then map_option (\<lambda>g. g + 1) (gen sl k) else gen sl k)"
  by (cases c) (simp_all add: gen_start gen_stop gen_hotplug gen_get_devices del: invokes.simps(3))

lemma gen_run_calls:
  "gen (run_calls cs sl) k =
     map_option (\<lambda>g. g + int (length (filter (invokes k) cs))) (gen sl k)"
proof (induction cs arbitrary: sl)
  case Nil
  then show ?case by (simp add: option.map_ident)
next
  case (Cons c cs)
  show ?case
    by (simp add: Cons.IH gen_run_call option.map_comp comp_def add.assoc)
qed

lemma reported_last_gen:
  "map info_last_gen (fst (get_devices env ip sl)) = map (\<lambda>(k, s). last_gen s) sl"
  by (simp add: get_devices_def Let_def snapshot_def last_gen_reap split_def)

text \<open>
  Claim C3. For a configured slot and any sequence of calls on the supervisor (\<open>start\<close>,
  \<open>stop\<close>, hotplug requests and \<open>get_devices\<close>, with any behaviour of the operating
  system), \<open>last_gen\<close> after the sequence is its value before plus the number of
  \<open>start\<close> and \<open>stop\<close> invocations made on that slot, dispatched from hotplug or
  not, failed or not: each invocation adds exactly one, so the values are strictly
  increasing. An invocation with an unknown slot key returns the error and changes no slot.
  \<open>get_devices\<close> reports the stored \<open>last_gen\<close> of every slot.
\<close>

theorem last_gen_counts_invocations:
  "(map_of sl k = Some s \<longrightarrow>
      gen (run_calls cs sl) k = Some (last_gen s + int (length (filter (invokes k) cs))))
   \<and> (map_of sl key = None \<longrightarrow>
        start env key dev sl = (Unknown_slot_key key, sl) \<and> stop key sl = (Unknown_slot_key key, sl))
   \<and> map info_last_gen (fst (get_devices env ip sl)) = map (\<lambda>(k, s). last_gen s) sl"
  by (simp add: gen_run_calls reported_last_gen start_def stop_def) (simp add: gen_def)

theorem last_gen_counts_invocations_witness:
  "map_of [(''usb-1'', running_slot)] ''usb-1'' = Some running_slot
   \<and> gen (run_calls
            [Start (healthy_env 1234) ''usb-1'' ''/dev/ttyUSB0'',
             Stop ''usb-1'',
             Start dead_env ''usb-1'' ''/dev/ttyUSB0'',
             Hotplug dead_env (Some ''remove'') None (Some ''usb-1''),
             Stop ''usb-9'',
             Get_devices dead_env]
            [(''usb-1'', running_slot)]) ''usb-1'' = Some 5
   \<and> map_of [(''usb-1'', running_slot)] ''usb-9'' = None
   \<and> start dead_env ''usb-9'' ''/dev/ttyUSB0'' [(''usb-1'', running_slot)] =
       (Unknown_slot_key ''usb-9'', [(''usb-1'', running_slot)])
   \<and> stop ''usb-9'' [(''usb-1'', running_slot)] =
       (Unknown_slot_key ''usb-9'', [(''usb-1'', running_slot)])"
  using last_gen_counts_invocations
    [of "[(''usb-1'', running_slot)]" "''usb-1''" running_slot
        "[Start (healthy_env 1234) ''usb-1'' ''/dev/ttyUSB0'',
          Stop ''usb-1'',
          Start dead_env ''usb-1'' ''/dev/ttyUSB0'',
          Hotplug dead_env (Some ''remove'') None (Some ''usb-1''),
          Stop ''usb-9'',
          Get_devices dead_env]"
        "''usb-9''" dead_env "''/dev/ttyUSB0''" "''192.168.1.10''"]
  by (simp add: running_slot_def new_slot_def)

subsection \<open>Idempotence of start\<close>

lemma map_of_start:
  assumes "map_of sl k = Some s"
  shows "start env k d sl = (fst (start_slot env d s), update_slot k (snd (start_slot env d s)) sl)"
    and "map_of (snd (start env k d sl)) k = Some (snd (start_slot env d s))"
  using assms by (simp_all add: start_def map_of_update_slot split: prod.splits)

text \<open>
  Claim C4. After a \<open>start\<close> of a configured slot that returned \<open>restarted = True\<close>,
  the slot is running on the device node with \<open>last_gen\<close> incremented; a repeated
  \<open>start\<close> with the same key and device node, while the child (whose pid is a real
  process id, not 0) is alive and the port is listening, returns success with
  \<open>restarted = False\<close>, leaves \<open>running\<close>, \<open>pid\<close> and \<open>devnode\<close> unchanged
  and increments \<open>last_gen\<close> again.
\<close>

theorem start_is_idempotent:
  assumes "map_of sl k = Some s"
    and "start env1 k d sl = (r1, sl1)"
    and "restarted r1 = Some True"
    and "map_of sl1 k = Some s1"
    and "pid_truthy (pid s1)"
    and "pid_alive env2 (pid s1)"
    and "is_port_listening env2 (tcp_port s1)"
    and "start env2 k d sl1 = (r2, sl2)"
  shows "running s1 \<and> devnode s1 = Some d \<and> last_gen s1 = last_gen s + 1
         \<and> r2 = Already_running (tcp_port s1) \<and> success r2 \<and> restarted r2 = Some False
         \<and> (\<exists>s2. map_of sl2 k = Some s2 \<and> running s2 = running s1 \<and> pid s2 = pid s1
                \<and> devnode s2 = devnode s1 \<and> last_gen s2 = last_gen s + 2)"
proof -
  from assms(1,2) have r1: "r1 = fst (start_slot env1 d s)"
    and sl1: "sl1 = update_slot k (snd (start_slot env1 d s)) sl"
    by (simp_all add: map_of_start(1))
  from assms(1,4) sl1 have s1: "s1 = snd (start_slot env1 d s)"
    by (simp add: map_of_update_slot)
  have first: "running s1 \<and> devnode s1 = Some d \<and> last_gen s1 = last_gen s + 1"
    using assms(3) unfolding r1 s1
    by (auto simp: start_slot_def Let_def split: sum.splits if_splits)
  have second: "start_slot env2 d s1 = (Already_running (tcp_port s1), s1\<lparr>last_gen := last_gen s1 + 1\<rparr>)"
    using first assms(5,6,7) by (simp add: start_slot_def Let_def)
  from assms(4,8) have r2: "r2 = fst (start_slot env2 d s1)"
    and sl2: "sl2 = update_slot k (snd (start_slot env2 d s1)) sl1"
    by (simp_all add: map_of_start(1))
  have "map_of sl2 k = Some (s1\<lparr>last_gen := last_gen s1 + 1\<rparr>)"
    unfolding sl2 second using assms(4) by (simp add: map_of_update_slot)
  then show ?thesis
    using first r2 second by simp
qed

theorem start_is_idempotent_witness:
  "map_of [(''usb-1'', stopped_slot)] ''usb-1'' = Some stopped_slot
   \<and> start (healthy_env 1234) ''usb-1'' ''/dev/ttyUSB0'' [(''usb-1'', stopped_slot)] =
       (Started 4001 1234,
        [(''usb-1'', stopped_slot\<lparr>running := True, pid := Some 1234,
            devnode := Some ''/dev/ttyUSB0'', last_gen := 1\<rparr>)])
   \<and> restarted (Started 4001 1234) = Some True
   \<and> start (healthy_env 1234) ''usb-1'' ''/dev/ttyUSB0''
        [(''usb-1'', stopped_slot\<lparr>running := True, pid := Some 1234,
            devnode := Some ''/dev/ttyUSB0'', last_gen := 1\<rparr>)] =
       (Already_running 4001,
        [(''usb-1'', stopped_slot\<lparr>running := True, pid := Some 1234,
            devnode := Some ''/dev/ttyUSB0'', last_gen := 2\<rparr>)])"
proof -
  let ?s1 = "stopped_slot\<lparr>running := True, pid := Some 1234,
            devnode := Some ''/dev/ttyUSB0'', last_gen := 1\<rparr>"
  let ?s2 = "stopped_slot\<lparr>running := True, pid := Some 1234,
            devnode := Some ''/dev/ttyUSB0'', last_gen := 2\<rparr>"
  have a1: "map_of [(''usb-1'', stopped_slot)] ''usb-1'' = Some stopped_slot" by simp
  have a2: "start (healthy_env 1234) ''usb-1'' ''/dev/ttyUSB0'' [(''usb-1'', stopped_slot)] =
       (Started 4001 1234, [(''usb-1'', ?s1)])"
    by (simp add: start_def start_slot_def update_slot_def stopped_slot_def new_slot_def
        healthy_env_def pid_truthy_def)
  have a3: "restarted (Started 4001 1234) = Some True" by simp
  have a4: "map_of [(''usb-1'', ?s1)] ''usb-1'' = Some ?s1" by simp
  have a5: "pid_truthy (pid ?s1)" by (simp add: pid_truthy_def)
  have a6: "pid_alive (healthy_env 1234) (pid ?s1)" by (simp add: pid_alive_def healthy_env_def)
  have a7: "is_port_listening (healthy_env 1234) (tcp_port ?s1)" by (simp add: healthy_env_def)
  have a8: "start (healthy_env 1234) ''usb-1'' ''/dev/ttyUSB0'' [(''usb-1'', ?s1)] =
       (Already_running 4001, [(''usb-1'', ?s2)])"
    by (simp add: start_def start_slot_def update_slot_def stopped_slot_def new_slot_def
        healthy_env_def pid_truthy_def pid_alive_def)
  show ?thesis
    using start_is_idempotent [OF a1 a2 a3 a4 a5 a6 a7 a8] a1 a2 a3 a8 by simp
qed

end
